theory Spec2Isabelle
  imports Complex_Main "HOL-Library.AList" "HOL-Library.List_Lexorder" "HOL-Library.Char_ord"
begin

section \<open>Climate risk pipeline: the model\<close>

text \<open>
  The development follows \<^verbatim>\<open>etl/ingest_and_process.py\<close>: the header helpers
  \<^verbatim>\<open>normalize_cols\<close> and \<^verbatim>\<open>pick_col\<close>, the feature engine
  \<^verbatim>\<open>compute_features\<close>, and the part of \<^verbatim>\<open>main\<close> that starts once the
  CSV file has been read (download, unzip and the choice of the file are input/output and
  stay outside).

  Numbers are the values a float64 cell can hold, with exact real arithmetic on the finite
  ones: rounding, overflow and the sign of zero are not represented. The special values
  (both infinities and NaN) follow the IEEE rules that numpy applies to a Series.
\<close>

subsection \<open>Column names\<close>

text \<open>
  A header is a list of 8-bit characters. \<^verbatim>\<open>str.lower\<close> is taken on the ASCII
  letters; every other byte is left alone and is not in \<^verbatim>\<open>[a-z0-9]\<close>.
\<close>

definition lower_char :: "char \<Rightarrow> char" where
  "lower_char c =
     (let n = (of_char c :: nat) in if 65 \<le> n \<and> n \<le> 90 then char_of (n + 32) else c)"

definition lower :: "string \<Rightarrow> string" where
  "lower x = map lower_char x"

definition is_alnum :: "char \<Rightarrow> bool" where
  "is_alnum c =
     (let n = (of_char c :: nat) in (97 \<le> n \<and> n \<le> 122) \<or> (48 \<le> n \<and> n \<le> 57))"

text \<open>
  \<^verbatim>\<open>re.sub(r'[^a-z0-9]+', '_', x)\<close>: scanning from the left, a character of the class
  \<^verbatim>\<open>[a-z0-9]\<close> is copied, and a character outside it starts a match that takes
  the longest run of such characters and is replaced by one underscore.
\<close>

function re_sub :: "string \<Rightarrow> string" where
  "re_sub [] = []"
| "re_sub (c # cs) =
     (if is_alnum c then c # re_sub cs
      else CHR ''_'' # re_sub (dropWhile (\<lambda>d. \<not> is_alnum d) cs))"
  by pat_completeness auto
termination
  by (relation "measure length") (auto simp: length_dropWhile_le less_Suc_eq_le)

text \<open>\<^verbatim>\<open>x.strip('_')\<close> removes the underscores at both ends.\<close>

definition strip_us :: "string \<Rightarrow> string" where
  "strip_us x =
     rev (dropWhile (\<lambda>c. c = CHR ''_'') (rev (dropWhile (\<lambda>c. c = CHR ''_'') x)))"

definition normalize_cols :: "string list \<Rightarrow> string list" where
  "normalize_cols cols = map (\<lambda>c. strip_us (re_sub (lower c))) cols"

primrec pick_col :: "string set \<Rightarrow> string list \<Rightarrow> string option" where
  "pick_col cols [] = None"
| "pick_col cols (opt # options) = (if opt \<in> cols then Some opt else pick_col cols options)"

text \<open>
  The reading of the normalizer that the properties below compare with: the lowercased
  header is cut into its maximal runs of characters of \<^verbatim>\<open>[a-z0-9]\<close>, and the runs
  are joined by single underscores.
\<close>

function alnum_runs :: "string \<Rightarrow> string list" where
  "alnum_runs [] = []"
| "alnum_runs (c # cs) =
     (if is_alnum c then (c # takeWhile is_alnum cs) # alnum_runs (dropWhile is_alnum cs)
      else alnum_runs cs)"
  by pat_completeness auto
termination
  by (relation "measure length") (auto simp: length_dropWhile_le less_Suc_eq_le)

fun join_us :: "string list \<Rightarrow> string" where
  "join_us [] = []"
| "join_us [w] = w"
| "join_us (w # ws) = w @ CHR ''_'' # join_us ws"

subsection \<open>Float cells\<close>

datatype fval = Fin real | PInf | NInf | NaN

fun fneg :: "fval \<Rightarrow> fval" where
  "fneg (Fin a) = Fin (- a)"
| "fneg PInf = NInf"
| "fneg NInf = PInf"
| "fneg NaN = NaN"

fun fadd :: "fval \<Rightarrow> fval \<Rightarrow> fval" where
  "fadd (Fin a) (Fin b) = Fin (a + b)"
| "fadd NaN _ = NaN"
| "fadd _ NaN = NaN"
| "fadd PInf NInf = NaN"
| "fadd NInf PInf = NaN"
| "fadd PInf _ = PInf"
| "fadd _ PInf = PInf"
| "fadd NInf _ = NInf"
| "fadd _ NInf = NInf"

definition fsub :: "fval \<Rightarrow> fval \<Rightarrow> fval" where
  "fsub a b = fadd a (fneg b)"

fun fmul :: "fval \<Rightarrow> fval \<Rightarrow> fval" where
  "fmul (Fin a) (Fin b) = Fin (a * b)"
| "fmul NaN _ = NaN"
| "fmul _ NaN = NaN"
| "fmul (Fin a) PInf = (if a = 0 then NaN else if 0 < a then PInf else NInf)"
| "fmul (Fin a) NInf = (if a = 0 then NaN else if 0 < a then NInf else PInf)"
| "fmul PInf (Fin b) = (if b = 0 then NaN else if 0 < b then PInf else NInf)"
| "fmul NInf (Fin b) = (if b = 0 then NaN else if 0 < b then NInf else PInf)"
| "fmul PInf PInf = PInf"
| "fmul PInf NInf = NInf"
| "fmul NInf PInf = NInf"
| "fmul NInf NInf = PInf"

text \<open>
  Division of one Series by another never raises: a zero divisor gives an infinity, or
  NaN when the dividend is zero as well.
\<close>

fun fdiv :: "fval \<Rightarrow> fval \<Rightarrow> fval" where
  "fdiv (Fin a) (Fin b) =
     (if b = 0 then (if a = 0 then NaN else if 0 < a then PInf else NInf) else Fin (a / b))"
| "fdiv NaN _ = NaN"
| "fdiv _ NaN = NaN"
| "fdiv (Fin a) PInf = Fin 0"
| "fdiv (Fin a) NInf = Fin 0"
| "fdiv PInf (Fin b) = (if 0 \<le> b then PInf else NInf)"
| "fdiv NInf (Fin b) = (if 0 \<le> b then NInf else PInf)"
| "fdiv PInf PInf = NaN"
| "fdiv PInf NInf = NaN"
| "fdiv NInf PInf = NaN"
| "fdiv NInf NInf = NaN"

fun fsqrt :: "fval \<Rightarrow> fval" where
  "fsqrt (Fin a) = (if a < 0 then NaN else Fin (sqrt a))"
| "fsqrt PInf = PInf"
| "fsqrt NInf = NaN"
| "fsqrt NaN = NaN"

text \<open>Comparisons: every comparison with NaN is false.\<close>

fun flt :: "fval \<Rightarrow> fval \<Rightarrow> bool" where
  "flt (Fin a) (Fin b) = (a < b)"
| "flt NInf (Fin b) = True"
| "flt NInf PInf = True"
| "flt (Fin a) PInf = True"
| "flt _ _ = False"

definition feq :: "fval \<Rightarrow> fval \<Rightarrow> bool" where
  "feq a b = (a = b \<and> a \<noteq> NaN)"

definition fle :: "fval \<Rightarrow> fval \<Rightarrow> bool" where
  "fle a b = (flt a b \<or> feq a b)"

definition fillna :: "fval \<Rightarrow> fval \<Rightarrow> fval" where
  "fillna d v = (if v = NaN then d else v)"

subsection \<open>Series reductions\<close>

text \<open>
  \<^verbatim>\<open>mean()\<close> and \<^verbatim>\<open>std(ddof=0)\<close> skip the missing values; on a Series with
  no value left they return NaN. The standard deviation is the square root of the mean of
  the squared distances to the mean.
\<close>

definition valid :: "fval list \<Rightarrow> fval list" where
  "valid s = filter (\<lambda>v. v \<noteq> NaN) s"

definition fsum :: "fval list \<Rightarrow> fval" where
  "fsum s = foldl fadd (Fin 0) s"

definition mean :: "fval list \<Rightarrow> fval" where
  "mean s = (let v = valid s in
     if v = [] then NaN else fdiv (fsum v) (Fin (real (length v))))"

definition std0 :: "fval list \<Rightarrow> fval" where
  "std0 s = (let v = valid s in
     if v = [] then NaN
     else let avg = fdiv (fsum v) (Fin (real (length v)));
              sqr = map (\<lambda>x. fmul (fsub avg x) (fsub avg x)) v
          in fsqrt (fdiv (fsum sqr) (Fin (real (length v)))))"

subsection \<open>Frames of standardized and of feature rows\<close>

text \<open>
  A cell of an object column is a string or a float; a missing value is the float NaN.
\<close>

datatype cell = SCell string | NCell fval

record std_row =
  country :: cell
  year :: fval
  temperature_anomaly :: fval
  co2_emission :: fval
  sea_level_change :: fval

record feat_row = std_row +
  temp_anomaly_z :: fval
  sea_level_z :: fval
  co2_growth :: fval
  co2_growth_norm :: fval
  risk_score :: fval

subsection \<open>The feature engine\<close>

definition zscore :: "std_row list \<Rightarrow> (std_row \<Rightarrow> fval) \<Rightarrow> fval list" where
  "zscore grp col = (let s = map col grp; std = std0 s in
     map (\<lambda>x. fdiv (fsub x (mean s)) (if std \<noteq> Fin 0 then std else Fin 1)) s)"

text \<open>
  \<^verbatim>\<open>df.groupby("country")\<close> splits the frame into the rows of each country, in
  the order of the frame, and leaves out the rows whose key is missing. The function is
  applied to each group and returns one value per row of the group; assigning the result
  to a column puts each value back at the row it came from, and the rows that are in no
  group receive NaN.
\<close>

definition group_rows :: "std_row list \<Rightarrow> cell \<Rightarrow> std_row list" where
  "group_rows df c = filter (\<lambda>r. country r = c) df"

definition pos_in_group :: "std_row list \<Rightarrow> nat \<Rightarrow> nat" where
  "pos_in_group df i = length (group_rows (take i df) (country (df ! i)))"

definition groupby_apply :: "std_row list \<Rightarrow> (std_row list \<Rightarrow> fval list) \<Rightarrow> fval list" where
  "groupby_apply df f =
     map (\<lambda>i. if country (df ! i) = NCell NaN then NaN
               else f (group_rows df (country (df ! i))) ! pos_in_group df i)
         [0..<length df]"

text \<open>
  \<^verbatim>\<open>pct_change()\<close> with its defaults: missing values are first filled forward
  (\<^verbatim>\<open>fill_method='pad'\<close>), then each value is divided by the one before it and 1
  is subtracted; the first position has no predecessor and is NaN.
\<close>

fun pad :: "fval \<Rightarrow> fval list \<Rightarrow> fval list" where
  "pad prev [] = []"
| "pad prev (x # xs) = (if x = NaN then prev # pad prev xs else x # pad x xs)"

definition pct_change :: "fval list \<Rightarrow> fval list" where
  "pct_change s = (let filled = pad NaN s; shifted = NaN # butlast filled in
     map (\<lambda>(a, b). fsub (fdiv a b) (Fin 1)) (zip filled shifted))"

text \<open>
  \<^verbatim>\<open>rank(pct=True)\<close> with its default \<^verbatim>\<open>method='average'\<close>: in ascending
  order the values equal to \<open>v\<close> occupy the places \<open>k + 1, \<dots>, k + m\<close>, where \<open>k\<close>
  values are smaller and \<open>m\<close> are equal; the rank of \<open>v\<close> is the average of these places,
  divided by the number of values that are not missing. A missing value has rank NaN.
\<close>

definition avg_rank :: "fval list \<Rightarrow> fval \<Rightarrow> real" where
  "avg_rank s v = (let k = length (filter (\<lambda>x. flt x v) s);
                       m = length (filter (\<lambda>x. feq x v) s)
                   in real (sum_list [k + 1 ..< k + m + 1]) / real m)"

definition rank_pct :: "fval list \<Rightarrow> fval list" where
  "rank_pct s = map (\<lambda>v. if v = NaN then NaN
                          else fdiv (Fin (avg_rank s v)) (Fin (real (length (valid s))))) s"

definition risk :: "fval \<Rightarrow> fval \<Rightarrow> fval \<Rightarrow> fval" where
  "risk tz gn sz = fadd (fadd (fmul (Fin 0.5) tz) (fmul (Fin 0.3) gn)) (fmul (Fin 0.2) sz)"

definition compute_features :: "std_row list \<Rightarrow> feat_row list" where
  "compute_features df =
    (let tz = groupby_apply df (\<lambda>g. zscore g temperature_anomaly);
         sz = groupby_apply df (\<lambda>g. zscore g sea_level_change);
         gr = map (fillna (Fin 0)) (groupby_apply df (\<lambda>g. pct_change (map co2_emission g)));
         gn = rank_pct gr;
         rs = map (\<lambda>i. risk (tz ! i) (gn ! i) (sz ! i)) [0..<length df]
     in map (\<lambda>i. std_row.extend (df ! i)
                    (feat_row.fields (tz ! i) (sz ! i) (gr ! i) (gn ! i) (rs ! i)))
            [0..<length df])"

text \<open>The column \<^verbatim>\<open>co2_growth\<close> as \<^verbatim>\<open>compute_features\<close> builds it.\<close>

definition co2_growth_col :: "std_row list \<Rightarrow> fval list" where
  "co2_growth_col df =
     map (fillna (Fin 0)) (groupby_apply df (\<lambda>g. pct_change (map co2_emission g)))"


text \<open>Small frames on which the properties are evaluated.\<close>

definition mk_std_row :: "string \<Rightarrow> real \<Rightarrow> fval \<Rightarrow> fval \<Rightarrow> fval \<Rightarrow> std_row" where
  "mk_std_row c y t e s = \<lparr>country = SCell c, year = Fin y, temperature_anomaly = t,
                     co2_emission = e, sea_level_change = s\<rparr>"

definition zero_then_five :: "std_row list" where
  "zero_then_five = [mk_std_row ''A'' 2000 (Fin 1) (Fin 0) (Fin 0), mk_std_row ''A'' 2001 (Fin 3) (Fin 5) (Fin 0)]"



subsection \<open>The raw frame and the pipeline\<close>

text \<open>
  A frame is the list of its columns, each with its name; a column is numeric
  (\<^verbatim>\<open>int64\<close> or \<^verbatim>\<open>float64\<close>) or of objects. The columns of a frame have the
  same length. \<^verbatim>\<open>df[name]\<close> reads the column of that name and
  \<^verbatim>\<open>df[name] = col\<close> replaces it, or adds it as the last column. When two
  columns have the same cleaned name, both take the first of them here; what pandas does
  with such a frame is not modelled.
\<close>

datatype column = NumCol "fval list" | ObjCol "cell list"

type_synonym frame = "(string \<times> column) list"

datatype error = SchemaError "string list" | TypeError | KeyError string

definition col_len :: "column \<Rightarrow> nat" where
  "col_len c = (case c of NumCol vs \<Rightarrow> length vs | ObjCol cs \<Rightarrow> length cs)"

definition nrows :: "frame \<Rightarrow> nat" where
  "nrows df = (case df of [] \<Rightarrow> 0 | (_, c) # _ \<Rightarrow> col_len c)"

definition cells_of :: "column \<Rightarrow> cell list" where
  "cells_of c = (case c of NumCol vs \<Rightarrow> map NCell vs | ObjCol cs \<Rightarrow> cs)"

definition getitem :: "frame \<Rightarrow> string \<Rightarrow> error + column" where
  "getitem df name = (case map_of df name of None \<Rightarrow> Inl (KeyError name) | Some c \<Rightarrow> Inr c)"

text \<open>
  \<^verbatim>\<open>np.random.uniform(lo, hi, n)\<close> takes the next \<open>n\<close> numbers of the generator,
  each in the unit interval, and scales them into the range. The generator is a tape of
  numbers with the position of the next one.
\<close>

definition uniform ::
  "(nat \<Rightarrow> real) \<Rightarrow> real \<Rightarrow> real \<Rightarrow> nat \<Rightarrow> nat \<Rightarrow> real list \<times> nat" where
  "uniform tape lo hi n pos = (map (\<lambda>k. lo + (hi - lo) * tape (pos + k)) [0..<n], pos + n)"

text \<open>
  The product of a column and an array of factors. On a column of objects the product is
  taken cell by cell, and a string cell raises a \<^verbatim>\<open>TypeError\<close>.
\<close>

fun mul_cell :: "cell \<Rightarrow> real \<Rightarrow> error + cell" where
  "mul_cell (SCell s) f = Inl TypeError"
| "mul_cell (NCell v) f = Inr (NCell (fmul v (Fin f)))"

fun mul_cells :: "cell list \<Rightarrow> real list \<Rightarrow> error + cell list" where
  "mul_cells (c # cs) (f # fs) =
     (case mul_cell c f of Inl e \<Rightarrow> Inl e
      | Inr c' \<Rightarrow> (case mul_cells cs fs of Inl e \<Rightarrow> Inl e | Inr cs' \<Rightarrow> Inr (c' # cs')))"
| "mul_cells _ _ = Inr []"

definition mul_col :: "column \<Rightarrow> real list \<Rightarrow> error + column" where
  "mul_col c fs = (case c of
      NumCol vs \<Rightarrow> Inr (NumCol (map (\<lambda>(v, f). fmul v (Fin f)) (zip vs fs)))
    | ObjCol cs \<Rightarrow> (case mul_cells cs fs of Inl e \<Rightarrow> Inl e | Inr cs' \<Rightarrow> Inr (ObjCol cs')))"

text \<open>
  One of the three guarded assignments of the loop,
  \<^verbatim>\<open>if src: temp[target] = temp[src] * factors\<close>.
\<close>

fun perturb :: "string option \<Rightarrow> string \<Rightarrow> real list \<Rightarrow> frame \<Rightarrow> error + frame" where
  "perturb None target fs temp = Inr temp"
| "perturb (Some src) target fs temp =
     (case getitem temp src of Inl e \<Rightarrow> Inl e
      | Inr c \<Rightarrow> (case mul_col c fs of Inl e \<Rightarrow> Inl e
                   | Inr c' \<Rightarrow> Inr (AList.update target c' temp)))"

text \<open>The factors of the second and third assignment are drawn inside the guard.\<close>

definition draw ::
  "(nat \<Rightarrow> real) \<Rightarrow> string option \<Rightarrow> real \<Rightarrow> real \<Rightarrow> nat \<Rightarrow> nat \<Rightarrow> real list \<times> nat" where
  "draw tape src lo hi n pos = (if src = None then ([], pos) else uniform tape lo hi n pos)"

text \<open>The body of the loop over the years, for the year \<open>y\<close>.\<close>

definition simulate_year ::
  "(nat \<Rightarrow> real) \<Rightarrow> string option \<Rightarrow> string option \<Rightarrow> string option \<Rightarrow> frame \<Rightarrow>
   int \<Rightarrow> nat \<Rightarrow> error + (frame \<times> nat)" where
  "simulate_year tape cri_col losses_col gdp_pc_col df y pos =
    (let temp = AList.update ''year'' (NumCol (replicate (nrows df) (Fin (of_int y)))) df;
         n = nrows temp;
         (u1, pos1) = uniform tape (- 0.3) 0.3 n pos;
         scale_factor = map (\<lambda>u. 1 + u) u1
     in case perturb cri_col ''cri_score'' scale_factor temp of
          Inl e \<Rightarrow> Inl e
        | Inr t1 \<Rightarrow>
          let (u2, pos2) = draw tape losses_col (- 0.25) 0.25 n pos1
          in case perturb losses_col ''losses_usdm_ppp_total'' (map (\<lambda>u. 1 + u) u2) t1 of
               Inl e \<Rightarrow> Inl e
             | Inr t2 \<Rightarrow>
               let (u3, pos3) = draw tape gdp_pc_col (- 0.3) 0.3 n pos2
               in case perturb gdp_pc_col ''fatalities_total'' (map (\<lambda>u. 1 + u) u3) t2 of
                    Inl e \<Rightarrow> Inl e
                  | Inr t3 \<Rightarrow> Inr (t3, pos3))"

fun simulate ::
  "(nat \<Rightarrow> real) \<Rightarrow> string option \<Rightarrow> string option \<Rightarrow> string option \<Rightarrow> frame \<Rightarrow>
   int list \<Rightarrow> nat \<Rightarrow> error + frame list" where
  "simulate tape cri_col losses_col gdp_pc_col df [] pos = Inr []"
| "simulate tape cri_col losses_col gdp_pc_col df (y # ys) pos =
     (case simulate_year tape cri_col losses_col gdp_pc_col df y pos of
        Inl e \<Rightarrow> Inl e
      | Inr (temp, pos') \<Rightarrow>
          (case simulate tape cri_col losses_col gdp_pc_col df ys pos' of
             Inl e \<Rightarrow> Inl e
           | Inr simulated \<Rightarrow> Inr (temp # simulated)))"

text \<open>
  \<^verbatim>\<open>pd.concat(simulated, ignore_index=True)\<close>. The frames of the list are copies
  of one frame that received the same assignments, so they carry the same columns in the
  same order, and the rows of each frame follow those of the frame before it.
\<close>

fun append_col :: "column \<Rightarrow> column \<Rightarrow> column" where
  "append_col (NumCol a) (NumCol b) = NumCol (a @ b)"
| "append_col a b = ObjCol (cells_of a @ cells_of b)"

definition append_frame :: "frame \<Rightarrow> frame \<Rightarrow> frame" where
  "append_frame a b = map (\<lambda>((name, c), (name', c')). (name, append_col c c')) (zip a b)"

fun concat_frames :: "frame list \<Rightarrow> frame" where
  "concat_frames [] = []"
| "concat_frames [f] = f"
| "concat_frames (f # fs) = append_frame f (concat_frames fs)"

text \<open>
  \<^verbatim>\<open>pd.to_numeric(col, errors="coerce")\<close> keeps the numbers and reads the strings
  with the parser of pandas, which is a parameter here and returns NaN for a text that is
  no number.
\<close>

definition to_numeric :: "(string \<Rightarrow> fval) \<Rightarrow> column \<Rightarrow> fval list" where
  "to_numeric parse c = (case c of NumCol vs \<Rightarrow> vs
     | ObjCol cs \<Rightarrow> map (\<lambda>x. case x of NCell v \<Rightarrow> v | SCell s \<Rightarrow> parse s) cs)"

text \<open>
  \<^verbatim>\<open>df.select_dtypes("number").sum(axis=1)\<close>: for each row the sum of the cells of
  the numeric columns, the missing ones skipped.
\<close>

definition number_cols :: "frame \<Rightarrow> fval list list" where
  "number_cols df =
     concat (map (\<lambda>(name, c). case c of NumCol vs \<Rightarrow> [vs] | ObjCol cs \<Rightarrow> []) df)"

definition row_sums :: "frame \<Rightarrow> fval list" where
  "row_sums df = map (\<lambda>i. fsum (valid (map (\<lambda>vs. vs ! i) (number_cols df)))) [0..<nrows df]"

text \<open>
  The block that builds \<^verbatim>\<open>df_std\<close> from five columns of the frame, aligned row by
  row, drops the rows without country or year and fills the three numeric fields. A scalar
  default is spread over the rows of the country column.
\<close>

definition standardize ::
  "(string \<Rightarrow> fval) \<Rightarrow> string \<Rightarrow> string option \<Rightarrow> string option \<Rightarrow> string option \<Rightarrow>
   frame \<Rightarrow> error + std_row list" where
  "standardize parse country_col cri_col losses_col gdp_pc_col df =
    (case getitem df country_col of
       Inl e \<Rightarrow> Inl e
     | Inr cc \<Rightarrow>
      (case getitem df ''year'' of
         Inl e \<Rightarrow> Inl e
       | Inr yc \<Rightarrow>
         let cs = cells_of cc;
             n = length cs;
             ys = to_numeric parse yc;
             ta = (case cri_col of None \<Rightarrow> row_sums df
                   | Some name \<Rightarrow> (case map_of df name of None \<Rightarrow> row_sums df
                                    | Some c \<Rightarrow> to_numeric parse c));
             co = (case losses_col of None \<Rightarrow> replicate n (Fin 0)
                   | Some name \<Rightarrow> (case map_of df name of None \<Rightarrow> replicate n (Fin 0)
                                    | Some c \<Rightarrow> to_numeric parse c));
             sl = (case gdp_pc_col of None \<Rightarrow> replicate n (Fin 0)
                   | Some name \<Rightarrow> (case map_of df name of None \<Rightarrow> replicate n (Fin 0)
                                    | Some c \<Rightarrow> to_numeric parse c));
             df_std = map (\<lambda>(c, y, t, e, s). \<lparr>country = c, year = y, temperature_anomaly = t,
                                               co2_emission = e, sea_level_change = s\<rparr>)
                          (zip cs (zip ys (zip ta (zip co sl))));
             dropped = filter (\<lambda>r. country r \<noteq> NCell NaN \<and> year r \<noteq> NaN) df_std
         in Inr (map (\<lambda>r. r\<lparr>temperature_anomaly := fillna (Fin 0) (temperature_anomaly r),
                               co2_emission := fillna (Fin 0) (co2_emission r),
                               sea_level_change := fillna (Fin 0) (sea_level_change r)\<rparr>)
                     dropped)))"

definition years :: "int list" where
  "years = [2000..2024]"

definition cri_aliases :: "string list" where
  "cri_aliases = [''cri_score'', ''climate_risk_index'', ''cri'']"

definition losses_aliases :: "string list" where
  "losses_aliases = [''losses_usdm_ppp_total'', ''losses_per_gdp_total'']"

definition fatalities_aliases :: "string list" where
  "fatalities_aliases = [''fatalities_total'', ''fatalities_per_100k_total'']"

text \<open>
  The country column:
  \<^verbatim>\<open>"country" if "country" in cols else pick_col(cols, ["rw_country_name", "country_name"])\<close>.
\<close>

definition find_country :: "string set \<Rightarrow> string option" where
  "find_country cols =
     (if ''country'' \<in> cols then Some ''country''
      else pick_col cols [''rw_country_name'', ''country_name''])"

text \<open>
  \<^verbatim>\<open>main\<close> from the frame that was read to the standardized frame, and then to
  the frame that is written. The error for a missing country column carries
  \<^verbatim>\<open>sorted(cols)\<close>.
\<close>

definition standardized ::
  "(nat \<Rightarrow> real) \<Rightarrow> (string \<Rightarrow> fval) \<Rightarrow> frame \<Rightarrow> error + std_row list" where
  "standardized tape parse raw =
    (let df = zip (normalize_cols (map fst raw)) (map snd raw);
         cols = set (map fst df)
     in case find_country cols of
          None \<Rightarrow> Inl (SchemaError (sorted_list_of_set cols))
        | Some country_col \<Rightarrow>
          let cri_col = pick_col cols cri_aliases;
              losses_col = pick_col cols losses_aliases;
              gdp_pc_col = pick_col cols fatalities_aliases;
              df1 = AList.update ''year'' (NumCol (replicate (nrows df) (Fin 2024))) df
          in case simulate tape cri_col losses_col gdp_pc_col df1 years 0 of
               Inl e \<Rightarrow> Inl e
             | Inr simulated \<Rightarrow>
                 standardize parse country_col cri_col losses_col gdp_pc_col
                   (concat_frames simulated))"

definition main :: "(nat \<Rightarrow> real) \<Rightarrow> (string \<Rightarrow> fval) \<Rightarrow> frame \<Rightarrow> error + feat_row list" where
  "main tape parse raw =
     (case standardized tape parse raw of
        Inl e \<Rightarrow> Inl e
      | Inr df_std \<Rightarrow> Inr (compute_features df_std))"

section \<open>Column names: normalization and alias resolution\<close>

lemma underscore_not_alnum [simp]: "\<not> is_alnum CHR ''_''"
  by (simp add: is_alnum_def)

lemma join_us_Cons: "join_us (w # ws) = (if ws = [] then w else w @ CHR ''_'' # join_us ws)"
  by (cases ws) simp_all

lemma alnum_runs_skip: "alnum_runs (dropWhile (\<lambda>d. \<not> is_alnum d) s) = alnum_runs s"
  by (induction s) simp_all

lemma alnum_runs_words:
  "w \<in> set (alnum_runs s) \<Longrightarrow> w \<noteq> [] \<and> (\<forall>c\<in>set w. is_alnum c)"
proof (induction s rule: alnum_runs.induct)
  case 1
  then show ?case by simp
next
  case (2 c cs)
  show ?case
  proof (cases "is_alnum c")
    case True
    with 2 have "w = c # takeWhile is_alnum cs \<or> w \<in> set (alnum_runs (dropWhile is_alnum cs))"
      by simp
    then show ?thesis
    proof
      assume "w = c # takeWhile is_alnum cs"
      with True show ?thesis by (auto dest: set_takeWhileD)
    next
      assume "w \<in> set (alnum_runs (dropWhile is_alnum cs))"
      with 2 True show ?thesis by blast
    qed
  next
    case False
    with 2 show ?thesis by simp
  qed
qed

lemma re_sub_shape:
  "\<exists>post. set post \<subseteq> {CHR ''_''} \<and>
     re_sub s = (if s \<noteq> [] \<and> \<not> is_alnum (hd s) then ''_'' else []) @ join_us (alnum_runs s) @ post"
proof (induction s rule: re_sub.induct)
  case 1
  then show ?case by simp
next
  case (2 c cs)
  show ?case
  proof (cases "is_alnum c")
    case True
    with 2 obtain post where post: "set post \<subseteq> {CHR ''_''}"
      and cs: "re_sub cs = (if cs \<noteq> [] \<and> \<not> is_alnum (hd cs) then ''_'' else []) @ join_us (alnum_runs cs) @ post"
      by blast
    show ?thesis
    proof (cases cs)
      case Nil
      with True show ?thesis by simp
    next
      case (Cons d ds)
      show ?thesis
      proof (cases "is_alnum d")
        case dT: True
        with True Cons cs have "re_sub (c # cs) = join_us (alnum_runs (c # cs)) @ post"
          by (simp add: join_us_Cons)
        with True post show ?thesis by auto
      next
        case dF: False
        with True Cons cs
        have "re_sub (c # cs) = join_us (alnum_runs (c # cs)) @ (if alnum_runs cs = [] then CHR ''_'' # post else post)"
          by (simp add: join_us_Cons)
        moreover have "set (if alnum_runs cs = [] then CHR ''_'' # post else post) \<subseteq> {CHR ''_''}"
          using post by simp
        ultimately show ?thesis using True by auto
      qed
    qed
  next
    case False
    let ?t = "dropWhile (\<lambda>d. \<not> is_alnum d) cs"
    from 2 False obtain post where post: "set post \<subseteq> {CHR ''_''}"
      and t: "re_sub ?t = (if ?t \<noteq> [] \<and> \<not> is_alnum (hd ?t) then ''_'' else []) @ join_us (alnum_runs ?t) @ post"
      by blast
    have "?t = [] \<or> is_alnum (hd ?t)"
      using hd_dropWhile[of "\<lambda>d. \<not> is_alnum d" cs] by auto
    with t have "re_sub ?t = join_us (alnum_runs cs) @ post"
      by (auto simp: alnum_runs_skip)
    with False have "re_sub (c # cs) = ''_'' @ join_us (alnum_runs (c # cs)) @ post"
      by simp
    with False post show ?thesis by auto
  qed
qed

lemma join_us_ends:
  assumes "ws \<noteq> []" and "\<forall>w\<in>set ws. w \<noteq> [] \<and> (\<forall>c\<in>set w. is_alnum c)"
  shows "join_us ws \<noteq> [] \<and> is_alnum (hd (join_us ws)) \<and> is_alnum (last (join_us ws))"
  using assms
proof (induction ws rule: join_us.induct)
  case 1
  then show ?case by simp
next
  case (2 w)
  then show ?case by simp
next
  case (3 w v ws)
  then show ?case by (auto simp: hd_append)
qed

lemma strip_us_body:
  assumes pre: "set pre \<subseteq> {CHR ''_''}" and post: "set post \<subseteq> {CHR ''_''}"
    and body: "body = [] \<or> (hd body \<noteq> CHR ''_'' \<and> last body \<noteq> CHR ''_'')"
  shows "strip_us (pre @ body @ post) = body"
proof (cases "body = []")
  case True
  have "\<forall>c\<in>set (pre @ post). c = CHR ''_''"
    using pre post by auto
  then have "dropWhile (\<lambda>c. c = CHR ''_'') (pre @ post) = []"
    by (simp only: dropWhile_eq_Nil_conv)
  then have "strip_us (pre @ post) = []" by (simp only: strip_us_def rev.simps dropWhile.simps)
  with True show ?thesis by simp
next
  case False
  with body have h: "hd body \<noteq> CHR ''_''" and l: "last body \<noteq> CHR ''_''" by auto
  have pre': "\<forall>c\<in>set pre. c = CHR ''_''" using pre by auto
  have post': "\<forall>c\<in>set (rev post). c = CHR ''_''" using post by auto
  have 1: "dropWhile (\<lambda>c. c = CHR ''_'') (pre @ body @ post) = body @ post"
    using pre' False h by (cases body) (simp_all add: dropWhile_append2)
  have "dropWhile (\<lambda>c. c = CHR ''_'') (rev post @ rev body) = dropWhile (\<lambda>c. c = CHR ''_'') (rev body)"
    by (rule dropWhile_append2) (use post' in auto)
  moreover have "dropWhile (\<lambda>c. c = CHR ''_'') (rev body) = rev body"
    using False l by (cases body rule: rev_cases) simp_all
  ultimately have 2: "dropWhile (\<lambda>c. c = CHR ''_'') (rev post @ rev body) = rev body"
    by simp
  show ?thesis by (simp add: strip_us_def 1 2)
qed

lemma normalize_words: "strip_us (re_sub s) = join_us (alnum_runs s)"
proof -
  obtain post where post: "set post \<subseteq> {CHR ''_''}"
    and s: "re_sub s = (if s \<noteq> [] \<and> \<not> is_alnum (hd s) then ''_'' else []) @ join_us (alnum_runs s) @ post"
    using re_sub_shape by blast
  have pre: "set (if s \<noteq> [] \<and> \<not> is_alnum (hd s) then ''_'' else []) \<subseteq> {CHR ''_''}" by auto
  have body: "join_us (alnum_runs s) = [] \<or>
      (hd (join_us (alnum_runs s)) \<noteq> CHR ''_'' \<and> last (join_us (alnum_runs s)) \<noteq> CHR ''_'')"
  proof (cases "alnum_runs s = []")
    case True
    then show ?thesis by simp
  next
    case False
    from join_us_ends[OF False] alnum_runs_words[of _ s]
    have "is_alnum (hd (join_us (alnum_runs s))) \<and> is_alnum (last (join_us (alnum_runs s)))"
      by blast
    then show ?thesis by (metis underscore_not_alnum)
  qed
  show ?thesis
    unfolding s by (rule strip_us_body[OF pre post body])
qed

lemma normalize_example:
  "normalize_cols [''Country Name'', ''CRI Score'', ''Losses (USD,PPP) Total'']
     = [''country_name'', ''cri_score'', ''losses_usd_ppp_total'']"
  by code_simp

text \<open>
  C8. Normalizing a header list lowercases each header, turns every maximal run of
  characters outside \<^verbatim>\<open>[a-z0-9]\<close> into one underscore and strips the underscores
  at both ends: what is left is the list of the maximal alphanumeric runs of the lowercased
  header, joined by single underscores. The headers "Country Name", "CRI Score" and
  "Losses (USD,PPP) Total" become country_name, cri_score and losses_usd_ppp_total, and
  the country field is then resolved to country_name.
\<close>

theorem normalize_cols_joins_runs:
  "normalize_cols hs = map (\<lambda>h. join_us (alnum_runs (lower h))) hs \<and>
   normalize_cols [''Country Name'', ''CRI Score'', ''Losses (USD,PPP) Total'']
     = [''country_name'', ''cri_score'', ''losses_usd_ppp_total''] \<and>
   find_country (set (normalize_cols [''Country Name'', ''CRI Score'', ''Losses (USD,PPP) Total'']))
     = Some ''country_name''"
proof (intro conjI)
  show "normalize_cols hs = map (\<lambda>h. join_us (alnum_runs (lower h))) hs"
    by (simp add: normalize_cols_def normalize_words)
  show "normalize_cols [''Country Name'', ''CRI Score'', ''Losses (USD,PPP) Total'']
     = [''country_name'', ''cri_score'', ''losses_usd_ppp_total'']"
    by (rule normalize_example)
  show "find_country (set (normalize_cols [''Country Name'', ''CRI Score'', ''Losses (USD,PPP) Total'']))
     = Some ''country_name''"
    by (simp add: normalize_example find_country_def)
qed

theorem normalize_cols_joins_runs_witness:
  "normalize_cols [''  Fatalities (Total) '', ''__a--B__''] = [''fatalities_total'', ''a_b''] \<and>
   map (\<lambda>h. join_us (alnum_runs (lower h))) [''  Fatalities (Total) '', ''__a--B__'']
     = [''fatalities_total'', ''a_b'']"
proof -
  have "map (\<lambda>h. join_us (alnum_runs (lower h))) [''  Fatalities (Total) '', ''__a--B__'']
     = [''fatalities_total'', ''a_b'']"
    by code_simp
  with normalize_cols_joins_runs[of "[''  Fatalities (Total) '', ''__a--B__'']"]
  show ?thesis by simp
qed

section \<open>The feature engine\<close>

subsection \<open>Rows and columns of the result\<close>

lemma extend_sel [simp]:
  "temp_anomaly_z (std_row.extend r (feat_row.fields a b c d e)) = a"
  "sea_level_z (std_row.extend r (feat_row.fields a b c d e)) = b"
  "co2_growth (std_row.extend r (feat_row.fields a b c d e)) = c"
  "co2_growth_norm (std_row.extend r (feat_row.fields a b c d e)) = d"
  "risk_score (std_row.extend r (feat_row.fields a b c d e)) = e"
  "country (std_row.extend r m) = country r"
  "year (std_row.extend r m) = year r"
  "temperature_anomaly (std_row.extend r m) = temperature_anomaly r"
  "co2_emission (std_row.extend r m) = co2_emission r"
  "sea_level_change (std_row.extend r m) = sea_level_change r"
  by (simp_all add: std_row.defs feat_row.defs)

lemma length_groupby_apply [simp]: "length (groupby_apply df f) = length df"
  by (simp add: groupby_apply_def)

lemma length_rank_pct [simp]: "length (rank_pct s) = length s"
  by (simp add: rank_pct_def)

lemma length_co2_growth_col [simp]: "length (co2_growth_col df) = length df"
  by (simp add: co2_growth_col_def)

lemma length_compute_features [simp]: "length (compute_features df) = length df"
  by (simp add: compute_features_def Let_def)

lemma compute_features_nth:
  assumes "i < length df"
  shows "temp_anomaly_z (compute_features df ! i)
           = groupby_apply df (\<lambda>g. zscore g temperature_anomaly) ! i"
    and "sea_level_z (compute_features df ! i)
           = groupby_apply df (\<lambda>g. zscore g sea_level_change) ! i"
    and "co2_growth (compute_features df ! i) = co2_growth_col df ! i"
    and "co2_growth_norm (compute_features df ! i) = rank_pct (co2_growth_col df) ! i"
    and "risk_score (compute_features df ! i)
           = risk (groupby_apply df (\<lambda>g. zscore g temperature_anomaly) ! i)
                  (rank_pct (co2_growth_col df) ! i)
                  (groupby_apply df (\<lambda>g. zscore g sea_level_change) ! i)"
    and "country (compute_features df ! i) = country (df ! i)"
    and "year (compute_features df ! i) = year (df ! i)"
    and "co2_emission (compute_features df ! i) = co2_emission (df ! i)"
  using assms by (simp_all add: compute_features_def Let_def co2_growth_col_def)


subsection \<open>The place of a row in its group\<close>

lemma filter_take_nth:
  assumes "i < length xs" and "P (xs ! i)"
  shows "filter P xs ! length (filter P (take i xs)) = xs ! i"
    and "length (filter P (take i xs)) < length (filter P xs)"
proof -
  have xs: "xs = take i xs @ xs ! i # drop (Suc i) xs"
    using assms(1) by (simp add: id_take_nth_drop)
  have "filter P xs = filter P (take i xs) @ xs ! i # filter P (drop (Suc i) xs)"
    by (subst xs) (simp add: assms(2))
  then show "filter P xs ! length (filter P (take i xs)) = xs ! i"
    and "length (filter P (take i xs)) < length (filter P xs)"
    by simp_all
qed

lemma group_rows_nth:
  assumes "i < length df"
  shows "group_rows df (country (df ! i)) ! pos_in_group df i = df ! i"
    and "pos_in_group df i < length (group_rows df (country (df ! i)))"
  using filter_take_nth[of i df "\<lambda>r. country r = country (df ! i)"] assms
  by (simp_all add: group_rows_def pos_in_group_def)

lemma groupby_apply_nth:
  assumes "i < length df" and "country (df ! i) \<noteq> NCell NaN"
  shows "groupby_apply df f ! i = f (group_rows df (country (df ! i))) ! pos_in_group df i"
  using assms by (simp add: groupby_apply_def)

lemma pos_in_group_first:
  assumes "i \<le> length df" and "\<forall>j<i. country (df ! j) \<noteq> c"
  shows "group_rows (take i df) c = []"
proof -
  have "\<forall>r\<in>set (take i df). country r \<noteq> c"
  proof
    fix r assume "r \<in> set (take i df)"
    then obtain k where "k < length (take i df)" and "r = take i df ! k"
      by (auto simp: in_set_conv_nth)
    with assms show "country r \<noteq> c" by simp
  qed
  then show ?thesis by (simp add: group_rows_def filter_empty_conv)
qed

lemma pos_in_group_prev:
  assumes "i \<le> length df" and "j < i" and "country (df ! j) = c"
    and "\<forall>k. j < k \<and> k < i \<longrightarrow> country (df ! k) \<noteq> c"
  shows "length (group_rows (take i df) c) = Suc (length (group_rows (take j df) c))"
proof -
  have j: "j < length (take i df)" using assms(1,2) by simp
  have split: "take i df = take j df @ df ! j # drop (Suc j) (take i df)"
    using id_take_nth_drop[OF j] assms(1,2) by (simp add: min_absorb2)
  have "\<forall>r\<in>set (drop (Suc j) (take i df)). country r \<noteq> c"
  proof
    fix r assume "r \<in> set (drop (Suc j) (take i df))"
    then obtain k where k: "k < length (drop (Suc j) (take i df))"
      and r: "r = drop (Suc j) (take i df) ! k"
      by (auto simp: in_set_conv_nth)
    from k assms(1) have "Suc j + k < i" by simp
    with r assms(1) have "r = df ! (Suc j + k)" by simp
    with assms(4) \<open>Suc j + k < i\<close> show "country r \<noteq> c" by simp
  qed
  then have "filter (\<lambda>r. country r = c) (drop (Suc j) (take i df)) = []"
    by (simp add: filter_empty_conv)
  then have "group_rows (take i df) c = group_rows (take j df) c @ [df ! j]"
    unfolding group_rows_def by (subst split) (simp add: assms(3))
  then show ?thesis by simp
qed

subsection \<open>NaN in the arithmetic\<close>

lemma nan_right [simp]:
  "fadd x NaN = NaN" "fmul x NaN = NaN" "fdiv x NaN = NaN" "fsub x NaN = NaN"
  by (cases x; simp add: fsub_def)+

lemma nan_left [simp]: "fsub NaN x = NaN"
  by (simp add: fsub_def)

subsection \<open>Mean and deviation of a constant series\<close>










subsection \<open>Percent change within a group\<close>

lemma pad_id: "NaN \<notin> set s \<Longrightarrow> pad prev s = s"
  by (induction s arbitrary: prev) auto

lemma length_pad [simp]: "length (pad prev s) = length s"
  by (induction s arbitrary: prev) simp_all

lemma length_pct_change [simp]: "length (pct_change s) = length s"
  by (cases s) (simp_all add: pct_change_def Let_def)

lemma pct_change_0:
  assumes "s \<noteq> []"
  shows "pct_change s ! 0 = NaN"
proof -
  have "length (pad NaN s) = length s" by simp
  with assms obtain x xs where "pad NaN s = x # xs"
    by (cases "pad NaN s") auto
  then show ?thesis
    by (simp add: pct_change_def Let_def fsub_def)
qed

lemma pct_change_Suc:
  assumes "Suc q < length s" and "NaN \<notin> set s"
  shows "pct_change s ! Suc q = fsub (fdiv (s ! Suc q) (s ! q)) (Fin 1)"
proof -
  have len: "Suc q < length (zip s (NaN # butlast s))"
    using assms(1) by simp
  have "zip s (NaN # butlast s) ! Suc q = (s ! Suc q, butlast s ! q)"
    using assms(1) by simp
  moreover have "butlast s ! q = s ! q"
    using assms(1) by (simp add: nth_butlast)
  ultimately show ?thesis
    using len by (simp add: pct_change_def Let_def pad_id[OF assms(2)])
qed

lemma co2_growth_first:
  assumes "i < length df" and "\<forall>j<i. country (df ! j) \<noteq> country (df ! i)"
  shows "co2_growth_col df ! i = Fin 0"
proof (cases "country (df ! i) = NCell NaN")
  case True
  with assms(1) show ?thesis
    by (simp add: co2_growth_col_def groupby_apply_def fillna_def)
next
  case False
  have "pos_in_group df i = 0"
    using pos_in_group_first[of i df "country (df ! i)"] assms
    by (simp add: pos_in_group_def)
  moreover have "map co2_emission (group_rows df (country (df ! i))) \<noteq> []"
    using group_rows_nth(2)[OF assms(1)] by auto
  ultimately show ?thesis
    using assms(1) False
    by (simp add: co2_growth_col_def groupby_apply_nth pct_change_0 fillna_def)
qed

lemma co2_growth_next:
  assumes "i < length df" and "country (df ! i) \<noteq> NCell NaN"
    and "\<forall>r\<in>set df. co2_emission r \<noteq> NaN"
    and "j < i" and "country (df ! j) = country (df ! i)"
    and "\<forall>k. j < k \<and> k < i \<longrightarrow> country (df ! k) \<noteq> country (df ! i)"
  shows "co2_growth_col df ! i =
    fillna (Fin 0) (fsub (fdiv (co2_emission (df ! i)) (co2_emission (df ! j))) (Fin 1))"
proof -
  let ?c = "country (df ! i)"
  let ?g = "group_rows df ?c"
  let ?s = "map co2_emission ?g"
  have jl: "j < length df" using assms(1,4) by simp
  have pi: "pos_in_group df i = Suc (pos_in_group df j)"
    using pos_in_group_prev[of i df j ?c] assms
    by (simp add: pos_in_group_def)
  have li: "pos_in_group df i < length ?g"
    by (rule group_rows_nth(2)[OF assms(1)])
  have gi: "?g ! pos_in_group df i = df ! i"
    by (rule group_rows_nth(1)[OF assms(1)])
  have gj: "?g ! pos_in_group df j = df ! j"
    using group_rows_nth(1)[OF jl] assms(5) by simp
  have nn: "NaN \<notin> set ?s"
    using assms(3) by (auto simp: group_rows_def)
  have "pct_change ?s ! Suc (pos_in_group df j)
          = fsub (fdiv (?s ! Suc (pos_in_group df j)) (?s ! pos_in_group df j)) (Fin 1)"
    using li pi by (intro pct_change_Suc nn) simp
  moreover have "?s ! Suc (pos_in_group df j) = co2_emission (df ! i)"
    using li pi gi by simp
  moreover have "?s ! pos_in_group df j = co2_emission (df ! j)"
    using li pi gj by simp
  ultimately show ?thesis
    using assms(1,2) li pi
    by (simp add: co2_growth_col_def groupby_apply_nth)
qed


subsection \<open>Average rank\<close>



















subsection \<open>Z-scores and the risk score are never infinite\<close>

















subsection \<open>Evaluation on small frames\<close>

lemmas frame_eval =
  compute_features_def groupby_apply_def group_rows_def pos_in_group_def zscore_def
  pct_change_def rank_pct_def avg_rank_def risk_def mean_def std0_def valid_def fsum_def
  fsub_def fillna_def feq_def mk_std_row_def Let_def upt_rec

lemma zero_then_five_tz:
  "map temp_anomaly_z (compute_features zero_then_five) = [Fin (- 1), Fin 1]"
  by (simp add: frame_eval zero_then_five_def)


lemma zero_then_five_norm:
  "map co2_growth_norm (compute_features zero_then_five) = [Fin (1 / 2), Fin 1]"
  by (simp add: frame_eval zero_then_five_def)




section \<open>Properties of the feature engine\<close>









text \<open>
  C6. In a frame whose rows are in year order and whose \<open>co2_emission\<close> has no missing
  value, the first row of a country is a row of its earliest year and has
  \<open>co2_growth = 0.0\<close>; every later row of the country has the change of
  \<open>co2_emission\<close> relative to the country's row before it, \<open>cur / prev - 1\<close> (with NaN
  replaced by 0.0), which is \<open>(cur - prev) / prev\<close> for finite values and a nonzero
  predecessor.
\<close>

theorem co2_growth_percent_change:
  assumes "i < length df" and "country (df ! i) \<noteq> NCell NaN"
    and "\<forall>r\<in>set df. co2_emission r \<noteq> NaN"
    and "sorted_wrt (\<lambda>a b. fle (year a) (year b)) df"
  shows "((\<forall>j<i. country (df ! j) \<noteq> country (df ! i)) \<longrightarrow>
            co2_growth (compute_features df ! i) = Fin 0 \<and>
            (\<forall>k<length df. i < k \<longrightarrow> fle (year (df ! i)) (year (df ! k)))) \<and>
         (j < i \<and> country (df ! j) = country (df ! i) \<and>
          (\<forall>k. j < k \<and> k < i \<longrightarrow> country (df ! k) \<noteq> country (df ! i)) \<longrightarrow>
            co2_growth (compute_features df ! i) =
              fillna (Fin 0) (fsub (fdiv (co2_emission (df ! i)) (co2_emission (df ! j))) (Fin 1)) \<and>
            fle (year (df ! j)) (year (df ! i)) \<and>
            (\<forall>c p. co2_emission (df ! i) = Fin c \<and> co2_emission (df ! j) = Fin p \<and> p \<noteq> 0 \<longrightarrow>
               co2_growth (compute_features df ! i) = Fin ((c - p) / p)))"
proof (intro conjI impI)
  assume first: "\<forall>j<i. country (df ! j) \<noteq> country (df ! i)"
  show "co2_growth (compute_features df ! i) = Fin 0"
    using co2_growth_first[OF assms(1) first] assms(1) by (simp add: compute_features_nth)
  show "\<forall>k<length df. i < k \<longrightarrow> fle (year (df ! i)) (year (df ! k))"
    using assms(4) by (simp add: sorted_wrt_iff_nth_less)
next
  assume prev: "j < i \<and> country (df ! j) = country (df ! i) \<and>
          (\<forall>k. j < k \<and> k < i \<longrightarrow> country (df ! k) \<noteq> country (df ! i))"
  then have g: "co2_growth (compute_features df ! i) =
      fillna (Fin 0) (fsub (fdiv (co2_emission (df ! i)) (co2_emission (df ! j))) (Fin 1))"
    using co2_growth_next[OF assms(1,2,3), of j] assms(1) by (simp add: compute_features_nth)
  show "co2_growth (compute_features df ! i) =
      fillna (Fin 0) (fsub (fdiv (co2_emission (df ! i)) (co2_emission (df ! j))) (Fin 1))"
    by (rule g)
  show "fle (year (df ! j)) (year (df ! i))"
    using assms(1,4) prev by (simp add: sorted_wrt_iff_nth_less)
  show "\<forall>c p. co2_emission (df ! i) = Fin c \<and> co2_emission (df ! j) = Fin p \<and> p \<noteq> 0 \<longrightarrow>
               co2_growth (compute_features df ! i) = Fin ((c - p) / p)"
    unfolding g by (auto simp: fsub_def fillna_def field_simps)
qed

theorem co2_growth_percent_change_witness:
  "co2_growth (compute_features [mk_std_row ''A'' 2000 (Fin 1) (Fin 4) (Fin 0),
                                 mk_std_row ''B'' 2000 (Fin 1) (Fin 1) (Fin 0),
                                 mk_std_row ''A'' 2001 (Fin 1) (Fin 5) (Fin 0)] ! 0) = Fin 0 \<and>
   co2_growth (compute_features [mk_std_row ''A'' 2000 (Fin 1) (Fin 4) (Fin 0),
                                 mk_std_row ''B'' 2000 (Fin 1) (Fin 1) (Fin 0),
                                 mk_std_row ''A'' 2001 (Fin 1) (Fin 5) (Fin 0)] ! 2) = Fin (1 / 4)"
proof -
  let ?df = "[mk_std_row ''A'' 2000 (Fin 1) (Fin 4) (Fin 0),
              mk_std_row ''B'' 2000 (Fin 1) (Fin 1) (Fin 0),
              mk_std_row ''A'' 2001 (Fin 1) (Fin 5) (Fin 0)]"
  have s: "sorted_wrt (\<lambda>a b. fle (year a) (year b)) ?df"
    by (simp add: mk_std_row_def fle_def feq_def)
  have n: "\<forall>r\<in>set ?df. co2_emission r \<noteq> NaN"
    by (simp add: mk_std_row_def)
  have a: "co2_growth (compute_features ?df ! 0) = Fin 0"
    using co2_growth_percent_change[of 0 ?df 0, OF _ _ n s] by (simp add: mk_std_row_def)
  have k: "\<forall>k. 0 < k \<and> k < (2::nat) \<longrightarrow> k = 1" by auto
  have b: "co2_growth (compute_features ?df ! 2) = Fin (1 / 4)"
    using co2_growth_percent_change[of 2 ?df 0, OF _ _ n s] k
    by (auto simp: mk_std_row_def)
  from a b show ?thesis by simp
qed






section \<open>The pipeline\<close>

subsection \<open>Alias resolution and the errors of the pipeline\<close>

lemma pick_col_None_iff: "pick_col cols opts = None \<longleftrightarrow> (\<forall>opt\<in>set opts. opt \<notin> cols)"
  by (induction opts) simp_all

lemma pick_col_first:
  "pick_col cols opts = Some a \<Longrightarrow>
   \<exists>pre post. opts = pre @ a # post \<and> a \<in> cols \<and> (\<forall>opt\<in>set pre. opt \<notin> cols)"
proof (induction opts)
  case Nil
  then show ?case by simp
next
  case (Cons opt opts)
  show ?case
  proof (cases "opt \<in> cols")
    case True
    with Cons.prems have "opt # opts = [] @ a # opts \<and> a \<in> cols \<and> (\<forall>x\<in>set []. x \<notin> cols)"
      by simp
    then show ?thesis by (intro exI[of _ "[]"] exI[of _ opts])
  next
    case False
    with Cons obtain pre post where "opts = pre @ a # post" "a \<in> cols" "\<forall>x\<in>set pre. x \<notin> cols"
      by auto
    with False have "opt # opts = (opt # pre) @ a # post \<and> a \<in> cols \<and> (\<forall>x\<in>set (opt # pre). x \<notin> cols)"
      by simp
    then show ?thesis by (intro exI[of _ "opt # pre"] exI[of _ post])
  qed
qed

lemma find_country_pick_col:
  "find_country cols = pick_col cols [''country'', ''rw_country_name'', ''country_name'']"
  by (simp add: find_country_def)

lemma mul_cells_error: "mul_cells cs fs = Inl e \<Longrightarrow> e = TypeError"
proof (induction cs fs rule: mul_cells.induct)
  case (1 c cs f fs)
  then show ?case
    by (cases c) (auto split: sum.splits)
qed simp_all

lemma mul_col_error: "mul_col c fs = Inl e \<Longrightarrow> e = TypeError"
  by (auto simp: mul_col_def split: column.splits sum.splits dest: mul_cells_error)

lemma perturb_error: "perturb src target fs temp = Inl e \<Longrightarrow> e = TypeError \<or> (\<exists>n. e = KeyError n)"
  by (cases src) (auto simp: getitem_def split: option.splits sum.splits dest: mul_col_error)

lemma simulate_year_error:
  "simulate_year tape a b c df y pos = Inl e \<Longrightarrow> e = TypeError \<or> (\<exists>n. e = KeyError n)"
  unfolding simulate_year_def Let_def
  by (auto split: sum.splits prod.splits dest: perturb_error)

lemma simulate_error:
  "simulate tape a b c df ys pos = Inl e \<Longrightarrow> e = TypeError \<or> (\<exists>n. e = KeyError n)"
proof (induction ys arbitrary: pos)
  case Nil
  then show ?case by simp
next
  case (Cons y ys)
  then show ?case
    by (auto split: sum.splits prod.splits dest: simulate_year_error)
qed

lemma standardize_error:
  "standardize parse cc a b c df = Inl e \<Longrightarrow> \<exists>n. e = KeyError n"
  unfolding standardize_def Let_def
  by (auto simp: getitem_def split: sum.splits option.splits)

lemma cleaned_names:
  "map fst (zip (normalize_cols (map fst raw)) (map snd raw)) = normalize_cols (map fst raw)"
  by (simp add: normalize_cols_def)

lemma standardized_schema_error:
  "standardized tape parse raw = Inl (SchemaError cs) \<longleftrightarrow>
     find_country (set (normalize_cols (map fst raw))) = None \<and>
     cs = sorted_list_of_set (set (normalize_cols (map fst raw)))"
proof (cases "find_country (set (normalize_cols (map fst raw)))")
  case None
  then show ?thesis
    unfolding standardized_def Let_def cleaned_names by auto
next
  case (Some cc)
  then show ?thesis
    unfolding standardized_def Let_def cleaned_names
    by (auto split: sum.splits dest: simulate_error standardize_error)
qed

lemma main_schema_error:
  "main tape parse raw = Inl (SchemaError cs) \<longleftrightarrow>
     find_country (set (normalize_cols (map fst raw))) = None \<and>
     cs = sorted_list_of_set (set (normalize_cols (map fst raw)))"
  using standardized_schema_error[of tape parse raw cs]
  by (auto simp: main_def split: sum.splits)

text \<open>
  C5. The run ends with the schema error exactly when none of the aliases country,
  rw_country_name, country_name is among the cleaned headers, and the error then carries
  the cleaned headers (each once, in sorted order). \<^verbatim>\<open>pick_col\<close> returns no column,
  and no error, when none of its aliases is present, and otherwise the first alias of its
  list that is present; the country column is picked in the same way from the three
  aliases in that order.
\<close>

theorem schema_error_iff_no_country_alias:
  "((\<exists>cs. main tape parse raw = Inl (SchemaError cs)) \<longleftrightarrow>
      ''country'' \<notin> set (normalize_cols (map fst raw)) \<and>
      ''rw_country_name'' \<notin> set (normalize_cols (map fst raw)) \<and>
      ''country_name'' \<notin> set (normalize_cols (map fst raw))) \<and>
   (main tape parse raw = Inl (SchemaError cs) \<longrightarrow>
      set cs = set (normalize_cols (map fst raw)) \<and> sorted cs \<and> distinct cs) \<and>
   (pick_col cols opts = None \<longleftrightarrow> (\<forall>opt\<in>set opts. opt \<notin> cols)) \<and>
   (pick_col cols opts = Some a \<longrightarrow>
      (\<exists>pre post. opts = pre @ a # post \<and> a \<in> cols \<and> (\<forall>opt\<in>set pre. opt \<notin> cols))) \<and>
   find_country cols = pick_col cols [''country'', ''rw_country_name'', ''country_name'']"
proof (intro conjI impI)
  show "(\<exists>cs. main tape parse raw = Inl (SchemaError cs)) \<longleftrightarrow>
      ''country'' \<notin> set (normalize_cols (map fst raw)) \<and>
      ''rw_country_name'' \<notin> set (normalize_cols (map fst raw)) \<and>
      ''country_name'' \<notin> set (normalize_cols (map fst raw))"
    by (simp add: main_schema_error find_country_pick_col pick_col_None_iff)
next
  assume "main tape parse raw = Inl (SchemaError cs)"
  then have "cs = sorted_list_of_set (set (normalize_cols (map fst raw)))"
    by (simp add: main_schema_error)
  then show "set cs = set (normalize_cols (map fst raw))" and "sorted cs" and "distinct cs"
    by simp_all
next
  show "pick_col cols opts = None \<longleftrightarrow> (\<forall>opt\<in>set opts. opt \<notin> cols)"
    by (rule pick_col_None_iff)
next
  assume "pick_col cols opts = Some a"
  then show "\<exists>pre post. opts = pre @ a # post \<and> a \<in> cols \<and> (\<forall>opt\<in>set pre. opt \<notin> cols)"
    by (rule pick_col_first)
next
  show "find_country cols = pick_col cols [''country'', ''rw_country_name'', ''country_name'']"
    by (rule find_country_pick_col)
qed

lemma normalize_example2:
  "normalize_cols [''Year'', ''CRI Score''] = [''year'', ''cri_score'']"
  by code_simp

lemma sort_example2: "sorted_list_of_set {''year'', ''cri_score''} = [''cri_score'', ''year'']"
  by code_simp

theorem schema_error_iff_no_country_alias_witness:
  "main (\<lambda>k. 0) (\<lambda>s. NaN) [(''Year'', NumCol [Fin 1]), (''CRI Score'', NumCol [Fin 2])]
     = Inl (SchemaError [''cri_score'', ''year'']) \<and>
   pick_col {''cri'', ''climate_risk_index''} cri_aliases = Some ''climate_risk_index''"
proof -
  let ?raw = "[(''Year'', NumCol [Fin 1]), (''CRI Score'', NumCol [Fin 2])]"
  let ?m = "main (\<lambda>k. 0) (\<lambda>s. NaN) ?raw"
  note T = schema_error_iff_no_country_alias[of "\<lambda>k. 0" "\<lambda>s. NaN" ?raw _
      "{''cri'', ''climate_risk_index''}" cri_aliases "''climate_risk_index''"]
  from T[THEN conjunct1] have "\<exists>cs. ?m = Inl (SchemaError cs)"
    by (simp add: normalize_example2)
  then obtain cs where cs: "?m = Inl (SchemaError cs)" ..
  from T[of cs, THEN conjunct2, THEN conjunct1] cs
  have "set cs = {''year'', ''cri_score''}" and "sorted cs" and "distinct cs"
    by (simp_all add: normalize_example2)
  then have "cs = sorted_list_of_set {''year'', ''cri_score''}"
    by (metis sorted_list_of_set.idem_if_sorted_distinct)
  with cs have "?m = Inl (SchemaError [''cri_score'', ''year''])"
    by (simp only: sort_example2)
  moreover have "pick_col {''cri'', ''climate_risk_index''} cri_aliases = Some ''climate_risk_index''"
    by (simp add: cri_aliases_def)
  ultimately show ?thesis by simp
qed

subsection \<open>Defaults of the standardized fields\<close>

lemma fillna_fin [simp]: "fillna d (Fin a) = Fin a"
  by (simp add: fillna_def)


lemma length_row_sums [simp]: "length (row_sums df) = nrows df"
  by (simp add: row_sums_def)


subsection \<open>The pipeline on frames of one row\<close>

lemma zip_map_same: "zip (map f xs) (map g xs) = map (\<lambda>x. (f x, g x)) xs"
  by (induction xs) simp_all

lemma replicate_length_map: "replicate (length xs) c = map (\<lambda>x. c) xs"
  by (induction xs) simp_all

lemma map_index_nth: "map (\<lambda>i. f (xs ! i)) [0..<length xs] = map f xs"
  by (rule nth_equalityI) simp_all






lemma years_nonempty: "years \<noteq> []"
  by (simp add: years_def upto.simps)




subsection \<open>A risk-index column under its second or third alias\<close>

lemma normalize_country_cri: "normalize_cols [''Country'', ''CRI''] = [''country'', ''cri'']"
  by code_simp

lemma cri_alias_year:
  "simulate_year tape (Some ''cri'') None None
     [(''country'', ObjCol [SCell ''A'']), (''cri'', NumCol [Fin 10]), (''year'', NumCol [Fin 2024])]
     y pos =
   Inr ([(''country'', ObjCol [SCell ''A'']), (''cri'', NumCol [Fin 10]),
         (''year'', NumCol [Fin (of_int y)]),
         (''cri_score'', NumCol [Fin (10 * (1 + (- 0.3 + 0.6 * tape pos)))])], pos + 1)"
  by (simp add: simulate_year_def nrows_def col_len_def uniform_def draw_def getitem_def mul_col_def)

lemma cri_alias_simulate:
  "\<exists>vs. length vs = length ys \<and>
     simulate tape (Some ''cri'') None None
       [(''country'', ObjCol [SCell ''A'']), (''cri'', NumCol [Fin 10]), (''year'', NumCol [Fin 2024])]
       ys pos =
     Inr (map (\<lambda>(y, v). [(''country'', ObjCol [SCell ''A'']), (''cri'', NumCol [Fin 10]),
                           (''year'', NumCol [Fin (of_int y)]), (''cri_score'', NumCol [Fin v])])
              (zip ys vs))"
proof (induction ys arbitrary: pos)
  case Nil
  then show ?case by simp
next
  case (Cons y ys)
  from Cons[of "Suc pos"] obtain vs where vs: "length vs = length ys"
    and s: "simulate tape (Some ''cri'') None None
       [(''country'', ObjCol [SCell ''A'']), (''cri'', NumCol [Fin 10]), (''year'', NumCol [Fin 2024])]
       ys (Suc pos) =
     Inr (map (\<lambda>(y, v). [(''country'', ObjCol [SCell ''A'']), (''cri'', NumCol [Fin 10]),
                           (''year'', NumCol [Fin (of_int y)]), (''cri_score'', NumCol [Fin v])])
              (zip ys vs))"
    by blast
  show ?case
    by (rule exI[of _ "(10 * (1 + (- 0.3 + 0.6 * tape pos))) # vs"])
       (simp add: vs s cri_alias_year)
qed

lemma cri_alias_concat:
  "length ys = length vs \<Longrightarrow> ys \<noteq> [] \<Longrightarrow>
   concat_frames
           (map (\<lambda>(y, v). [(''country'', ObjCol [SCell ''A'']), (''cri'', NumCol [Fin 10]),
                            (''year'', NumCol [Fin (of_int y)]), (''cri_score'', NumCol [Fin v])])
                (zip ys vs)) =
         [(''country'', ObjCol (map (\<lambda>y. SCell ''A'') ys)), (''cri'', NumCol (map (\<lambda>y. Fin 10) ys)),
          (''year'', NumCol (map (\<lambda>y. Fin (of_int y)) ys)), (''cri_score'', NumCol (map Fin vs))]"
proof (induction ys vs rule: list_induct2)
  case Nil
  then show ?case by simp
next
  case (Cons y ys v vs)
  then show ?case
    by (cases ys; cases vs) (simp_all add: append_frame_def cells_of_def)
qed

lemma cri_alias_standardize:
  "standardize parse ''country'' (Some ''cri'') None None
     [(''country'', ObjCol (map (\<lambda>y. SCell ''A'') ys)), (''cri'', NumCol (map (\<lambda>y. Fin 10) ys)),
      (''year'', NumCol (map (\<lambda>y. Fin (of_int y)) ys)), (''cri_score'', NumCol vs)] =
   Inr (map (\<lambda>y. mk_std_row ''A'' (of_int y) (Fin 10) (Fin 0) (Fin 0)) ys)"
  by (simp add: standardize_def getitem_def cells_of_def to_numeric_def Let_def
      replicate_length_map zip_map_same mk_std_row_def o_def)

text \<open>
  C9 at a file with the columns Country and CRI. The risk-index column is found under its
  third alias; the loop stores the perturbed values in a new column \<open>cri_score\<close>, and the
  standardized \<open>temperature_anomaly\<close>, read from the column \<open>cri\<close>, is the value of the file
  in each of the 25 years, whatever the generator draws.
\<close>

theorem cri_alias_not_perturbed:
  "pick_col (set (normalize_cols [''Country'', ''CRI''])) cri_aliases = Some ''cri'' \<and>
   standardized tape parse [(''Country'', ObjCol [SCell ''A'']), (''CRI'', NumCol [Fin 10])] =
     Inr (map (\<lambda>y. mk_std_row ''A'' (of_int y) (Fin 10) (Fin 0) (Fin 0)) [2000..2024])"
proof -
  let ?df1 = "[(''country'', ObjCol [SCell ''A'']), (''cri'', NumCol [Fin 10]), (''year'', NumCol [Fin 2024])]"
  from cri_alias_simulate[of years tape 0] obtain vs where vs: "length vs = length years"
    and s: "simulate tape (Some ''cri'') None None ?df1 years 0 =
      Inr (map (\<lambda>(y, v). [(''country'', ObjCol [SCell ''A'']), (''cri'', NumCol [Fin 10]),
                           (''year'', NumCol [Fin (of_int y)]), (''cri_score'', NumCol [Fin v])])
              (zip years vs))"
    by blast
  have p: "pick_col {''country'', ''cri''} cri_aliases = Some ''cri''"
    by (simp add: cri_aliases_def)
  have "standardized tape parse [(''Country'', ObjCol [SCell ''A'']), (''CRI'', NumCol [Fin 10])] =
     Inr (map (\<lambda>y. mk_std_row ''A'' (of_int y) (Fin 10) (Fin 0) (Fin 0)) years)"
    using normalize_country_cri
    by (simp add: standardized_def find_country_def cri_aliases_def losses_aliases_def
      fatalities_aliases_def nrows_def col_len_def s Let_def
      cri_alias_concat[OF vs[symmetric] years_nonempty] cri_alias_standardize)
  with p show ?thesis
    by (simp add: normalize_country_cri years_def insert_commute)
qed

subsection \<open>A risk-index column under its first alias\<close>

lemma normalize_country_cri_score:
  "normalize_cols [''Country'', ''CRI Score''] = [''country'', ''cri_score'']"
  by code_simp

lemma cri_score_year:
  "simulate_year tape (Some ''cri_score'') None None
     [(''country'', ObjCol [SCell ''A'']), (''cri_score'', NumCol [Fin 10]), (''year'', NumCol [Fin 2024])]
     y pos =
   Inr ([(''country'', ObjCol [SCell ''A'']),
         (''cri_score'', NumCol [Fin (7 + 6 * tape pos)]),
         (''year'', NumCol [Fin (of_int y)])], Suc pos)"
  by (simp add: simulate_year_def nrows_def col_len_def uniform_def draw_def getitem_def mul_col_def)

lemma cri_score_simulate:
  "simulate tape (Some ''cri_score'') None None
     [(''country'', ObjCol [SCell ''A'']), (''cri_score'', NumCol [Fin 10]), (''year'', NumCol [Fin 2024])]
     ys pos =
   Inr (map (\<lambda>(y, k). [(''country'', ObjCol [SCell ''A'']),
                         (''cri_score'', NumCol [Fin (7 + 6 * tape k)]),
                         (''year'', NumCol [Fin (of_int y)])])
            (zip ys [pos..<pos + length ys]))"
proof (induction ys arbitrary: pos)
  case Nil
  then show ?case by simp
next
  case (Cons y ys)
  have u: "[pos..<pos + length (y # ys)] = pos # [Suc pos..<Suc pos + length ys]"
    using upt_conv_Cons[of pos "pos + Suc (length ys)"] by simp
  show ?case
    unfolding u by (simp add: cri_score_year Cons)
qed

lemma cri_score_concat:
  "zs \<noteq> [] \<Longrightarrow>
   concat_frames (map (\<lambda>(y, k). [(''country'', ObjCol [SCell ''A'']),
                                  (''cri_score'', NumCol [Fin (g k)]),
                                  (''year'', NumCol [Fin (of_int y)])]) zs) =
     [(''country'', ObjCol (map (\<lambda>z. SCell ''A'') zs)),
      (''cri_score'', NumCol (map (\<lambda>(y, k). Fin (g k)) zs)),
      (''year'', NumCol (map (\<lambda>(y, k). Fin (of_int y)) zs))]"
proof (induction zs)
  case Nil
  then show ?case by simp
next
  case (Cons z zs)
  then show ?case
    by (cases zs) (auto simp: append_frame_def cells_of_def split: prod.splits)
qed

lemma cri_score_standardize:
  "standardize parse ''country'' (Some ''cri_score'') None None
     [(''country'', ObjCol (map (\<lambda>z. SCell ''A'') zs)),
      (''cri_score'', NumCol (map (\<lambda>(y, k). Fin (g k)) zs)),
      (''year'', NumCol (map (\<lambda>(y, k). Fin (of_int y)) zs))] =
   Inr (map (\<lambda>(y, k). mk_std_row ''A'' (of_int y) (Fin (g k)) (Fin 0) (Fin 0)) zs)"
  by (simp add: standardize_def getitem_def cells_of_def to_numeric_def Let_def
      replicate_length_map zip_map_same mk_std_row_def o_def split_def)

lemma cri_score_perturbed:
  "standardized tape parse [(''Country'', ObjCol [SCell ''A'']), (''CRI Score'', NumCol [Fin 10])] =
     Inr (map (\<lambda>(y, k). mk_std_row ''A'' (of_int y) (Fin (7 + 6 * tape k)) (Fin 0) (Fin 0))
              (zip [2000..2024] [0..<25]))"
proof -
  have l: "length years = 25" by (simp add: years_def upto_rec_numeral)
  have z: "zip years [0..<length years] \<noteq> []"
    using years_nonempty by (cases years) (simp_all add: upt_conv_Cons)
  have "standardized tape parse [(''Country'', ObjCol [SCell ''A'']), (''CRI Score'', NumCol [Fin 10])] =
     Inr (map (\<lambda>(y, k). mk_std_row ''A'' (of_int y) (Fin (7 + 6 * tape k)) (Fin 0) (Fin 0))
              (zip years [0..<0 + length years]))"
    using normalize_country_cri_score
    by (simp only: standardized_def Let_def list.map fst_conv snd_conv)
       (simp add: find_country_def cri_aliases_def losses_aliases_def
          fatalities_aliases_def nrows_def col_len_def cri_score_simulate
          cri_score_concat[OF z] cri_score_standardize del: upt_Suc)
  then show ?thesis
    by (simp only: l add_0) (simp only: years_def)
qed

subsection \<open>The year column of the expanded frame\<close>

lemma perturb_other:
  assumes "perturb src target fs t = Inr t'" and "name \<noteq> target"
  shows "map_of t' name = map_of t name"
  using assms
  by (cases src) (auto simp: getitem_def update_conv' split: option.splits sum.splits)

lemma perturb_keys:
  assumes "perturb src target fs t = Inr t'"
  shows "map fst t' =
    (if src = None \<or> target \<in> set (map fst t) then map fst t else map fst t @ [target])"
proof (cases src)
  case None
  with assms show ?thesis by simp
next
  case (Some name)
  with assms obtain col where "t' = AList.update target col t"
    by (auto simp: getitem_def split: option.splits sum.splits)
  with Some show ?thesis by (simp add: update_keys)
qed

lemma simulate_year_year:
  assumes "simulate_year tape a b c df y pos = Inr (t, pos')"
  shows "map_of t ''year'' = Some (NumCol (replicate (nrows df) (Fin (of_int y))))"
proof -
  let ?temp = "AList.update ''year'' (NumCol (replicate (nrows df) (Fin (of_int y)))) df"
  from assms obtain f1 f2 f3 t1 t2 where
    1: "perturb a ''cri_score'' f1 ?temp = Inr t1" and
    2: "perturb b ''losses_usdm_ppp_total'' f2 t1 = Inr t2" and
    3: "perturb c ''fatalities_total'' f3 t2 = Inr t"
    unfolding simulate_year_def Let_def
    by (auto split: sum.splits prod.splits)
  have "map_of t ''year'' = map_of ?temp ''year''"
    using perturb_other[OF 1, of "''year''"] perturb_other[OF 2, of "''year''"]
      perturb_other[OF 3, of "''year''"] by simp
  then show ?thesis by (simp add: update_conv')
qed

lemma simulate_year_keys:
  assumes "simulate_year tape a b c df y pos = Inr (t, pos')"
    and "simulate_year tape a b c df y' pos2 = Inr (t', pos2')"
  shows "map fst t = map fst t'"
proof -
  let ?temp = "\<lambda>y. AList.update ''year'' (NumCol (replicate (nrows df) (Fin (of_int y)))) df"
  from assms(1) obtain f1 f2 f3 t1 t2 where
    1: "perturb a ''cri_score'' f1 (?temp y) = Inr t1" and
    2: "perturb b ''losses_usdm_ppp_total'' f2 t1 = Inr t2" and
    3: "perturb c ''fatalities_total'' f3 t2 = Inr t"
    unfolding simulate_year_def Let_def
    by (auto split: sum.splits prod.splits)
  from assms(2) obtain g1 g2 g3 u1 u2 where
    4: "perturb a ''cri_score'' g1 (?temp y') = Inr u1" and
    5: "perturb b ''losses_usdm_ppp_total'' g2 u1 = Inr u2" and
    6: "perturb c ''fatalities_total'' g3 u2 = Inr t'"
    unfolding simulate_year_def Let_def
    by (auto split: sum.splits prod.splits)
  have 0: "map fst (?temp y) = map fst (?temp y')" by (simp add: update_keys)
  have "map fst t1 = map fst u1"
    using perturb_keys[OF 1] perturb_keys[OF 4] 0 by simp
  then have "map fst t2 = map fst u2"
    using perturb_keys[OF 2] perturb_keys[OF 5] by simp
  then show ?thesis
    using perturb_keys[OF 3] perturb_keys[OF 6] by simp
qed

lemma simulate_keys:
  assumes "simulate_year tape a b c df y pos0 = Inr (t, q)"
    and "simulate tape a b c df ys pos = Inr sims" and "k < length sims"
  shows "map fst (sims ! k) = map fst t"
  using assms(2,3)
proof (induction ys arbitrary: pos sims k)
  case Nil
  then show ?case by simp
next
  case (Cons z zs)
  from Cons.prems(1) obtain u p r where
    u: "simulate_year tape a b c df z pos = Inr (u, p)" and
    r: "simulate tape a b c df zs p = Inr r" and
    e: "sims = u # r"
    by (auto split: sum.splits prod.splits)
  show ?case
  proof (cases k)
    case 0
    with e simulate_year_keys[OF u assms(1)] show ?thesis by simp
  next
    case (Suc m)
    with Cons.prems(2) e have "m < length r" by simp
    from Cons.IH[OF r this] Suc e show ?thesis by simp
  qed
qed

lemma simulate_frames:
  assumes "simulate tape a b c df ys pos = Inr sims"
  shows "length sims = length ys \<and>
         (\<forall>k<length ys. map_of (sims ! k) ''year''
              = Some (NumCol (replicate (nrows df) (Fin (of_int (ys ! k))))))"
  using assms
proof (induction ys arbitrary: pos sims)
  case Nil
  then show ?case by simp
next
  case (Cons y ys)
  from Cons.prems obtain t pos' rest where
    t: "simulate_year tape a b c df y pos = Inr (t, pos')" and
    rest: "simulate tape a b c df ys pos' = Inr rest" and
    sims: "sims = t # rest"
    by (auto split: sum.splits prod.splits)
  note IH = Cons.IH[OF rest]
  show ?case
  proof (intro conjI allI impI)
    show "length sims = length (y # ys)" using IH sims by simp
  next
    fix k assume "k < length (y # ys)"
    then show "map_of (sims ! k) ''year''
        = Some (NumCol (replicate (nrows df) (Fin (of_int ((y # ys) ! k)))))"
      using IH sims simulate_year_year[OF t] by (cases k) simp_all
  qed
qed

lemma simulate_same_keys:
  assumes "simulate tape a b c df ys pos = Inr sims" and "k < length sims"
  shows "map fst (sims ! k) = map fst (sims ! 0)"
proof (cases ys)
  case Nil
  with assms show ?thesis by simp
next
  case (Cons y zs)
  with assms(1) obtain t pos' rest where
    t: "simulate_year tape a b c df y pos = Inr (t, pos')" and "sims = t # rest"
    by (auto split: sum.splits prod.splits)
  with simulate_keys[OF t assms(1) assms(2)] show ?thesis by simp
qed

lemma append_frame_keys: "length a = length b \<Longrightarrow> map fst (append_frame a b) = map fst a"
  unfolding append_frame_def
  by (induction a b rule: list_induct2) (auto split: prod.splits)

lemma append_frame_lookup:
  assumes "map fst a = map fst b" and "map_of a k = Some (NumCol va)"
    and "map_of b k = Some (NumCol vb)"
  shows "map_of (append_frame a b) k = Some (NumCol (va @ vb))"
proof -
  have "length a = length b" using assms(1) by (metis length_map)
  then show ?thesis
    using assms unfolding append_frame_def
    by (induction a b rule: list_induct2) (auto split: prod.splits if_splits)
qed

lemma concat_frames_year:
  assumes "sims \<noteq> []"
    and "\<forall>k<length sims. map_of (sims ! k) ''year'' = Some (NumCol (vs ! k))"
    and "\<forall>k<length sims. map fst (sims ! k) = map fst (sims ! 0)"
    and "length vs = length sims"
  shows "map_of (concat_frames sims) ''year'' = Some (NumCol (concat vs)) \<and>
         map fst (concat_frames sims) = map fst (sims ! 0)"
  using assms
proof (induction sims arbitrary: vs rule: concat_frames.induct)
  case 1
  from "1.prems"(1) show ?case by simp
next
  case (2 f)
  from "2.prems"(4) obtain v where vs: "vs = [v]" by (cases vs) auto
  from "2.prems"(2)[rule_format, of 0] vs have "map_of f ''year'' = Some (NumCol v)" by simp
  with vs show ?case by simp
next
  case (3 f g fs)
  from "3.prems"(4) obtain v vs' where vs: "vs = v # vs'" by (cases vs) auto
  have a: "\<forall>k<length (g # fs). map_of ((g # fs) ! k) ''year'' = Some (NumCol (vs' ! k))"
  proof (intro allI impI)
    fix k assume "k < length (g # fs)"
    then have "Suc k < length (f # g # fs)" by simp
    from "3.prems"(2)[rule_format, OF this] vs
    show "map_of ((g # fs) ! k) ''year'' = Some (NumCol (vs' ! k))" by simp
  qed
  have "Suc 0 < length (f # g # fs)" by simp
  from "3.prems"(3)[rule_format, OF this] have g: "map fst g = map fst f" by simp
  have b: "\<forall>k<length (g # fs). map fst ((g # fs) ! k) = map fst ((g # fs) ! 0)"
  proof (intro allI impI)
    fix k assume "k < length (g # fs)"
    then have "Suc k < length (f # g # fs)" by simp
    from "3.prems"(3)[rule_format, OF this] g
    show "map fst ((g # fs) ! k) = map fst ((g # fs) ! 0)" by simp
  qed
  have l: "length vs' = length (g # fs)" using "3.prems"(4) vs by simp
  have ne: "g # fs \<noteq> []" by simp
  from "3.IH"[OF ne a b l]
  have IH1: "map_of (concat_frames (g # fs)) ''year'' = Some (NumCol (concat vs'))"
    and IH2: "map fst (concat_frames (g # fs)) = map fst g"
    by simp_all
  have "0 < length (f # g # fs)" by simp
  from "3.prems"(2)[rule_format, OF this] vs
  have f: "map_of f ''year'' = Some (NumCol v)" by simp
  have k: "map fst f = map fst (concat_frames (g # fs))" using IH2 g by simp
  then have len: "length f = length (concat_frames (g # fs))" by (metis length_map)
  have c: "concat_frames (f # g # fs) = append_frame f (concat_frames (g # fs))" by simp
  have "map_of (concat_frames (f # g # fs)) ''year'' = Some (NumCol (concat vs))"
    unfolding c vs using append_frame_lookup[OF k f IH1] by simp
  moreover have "map fst (concat_frames (f # g # fs)) = map fst ((f # g # fs) ! 0)"
    unfolding c using append_frame_keys[OF len] by simp
  ultimately show ?case by (rule conjI)
qed

lemma expanded_year_column:
  assumes "simulate tape a b c df ys pos = Inr sims" and "ys \<noteq> []"
  shows "map_of (concat_frames sims) ''year''
           = Some (NumCol (concat (map (\<lambda>y. replicate (nrows df) (Fin (of_int y))) ys)))"
proof -
  note S = simulate_frames[OF assms(1)]
  let ?vs = "map (\<lambda>y. replicate (nrows df) (Fin (of_int y))) ys"
  have 1: "sims \<noteq> []" using S assms(2) by auto
  have 2: "\<forall>k<length sims. map_of (sims ! k) ''year'' = Some (NumCol (?vs ! k))"
    using S by simp
  have 3: "\<forall>k<length sims. map fst (sims ! k) = map fst (sims ! 0)"
    using simulate_same_keys[OF assms(1)] by simp
  have 4: "length ?vs = length sims" using S by simp
  from concat_frames_year[OF 1 2 3 4] show ?thesis by simp
qed

lemma expanded_row_count:
  assumes "simulate tape a b c df years pos = Inr sims"
  shows "\<exists>col. getitem (concat_frames sims) ''year'' = Inr col \<and> col_len col = 25 * nrows df"
proof -
  have l: "length years = 25" by (simp add: years_def upto_rec_numeral)
  then have "years \<noteq> []" by auto
  from expanded_year_column[OF assms this] l show ?thesis
    by (simp add: getitem_def col_len_def length_concat o_def sum_list_triv)
qed

subsection \<open>The standardized frame is in year order and has no missing value\<close>

lemma sorted_year_blocks:
  "sorted ys \<Longrightarrow> sorted_wrt fle (concat (map (\<lambda>y. replicate n (Fin (of_int y))) ys))"
proof (induction ys)
  case Nil
  then show ?case by simp
next
  case (Cons y ys)
  have 1: "sorted_wrt fle (replicate n (Fin (of_int y)))"
    by (simp add: sorted_wrt_iff_nth_less fle_def feq_def)
  have 2: "\<forall>u\<in>set (replicate n (Fin (real_of_int y))).
           \<forall>v\<in>set (concat (map (\<lambda>y. replicate n (Fin (of_int y))) ys)). fle u v"
    using Cons.prems by (auto simp: fle_def feq_def)
  from Cons 1 2 show ?case
    by (simp add: sorted_wrt_append)
qed

lemma sorted_wrt_zip_snd:
  assumes "sorted_wrt R ys"
  shows "sorted_wrt (\<lambda>p q. R (fst (snd p)) (fst (snd q))) (zip xs (zip ys zs))"
  unfolding sorted_wrt_iff_nth_less
proof (intro allI impI)
  fix i j assume "i < j" and j: "j < length (zip xs (zip ys zs))"
  then have "i < length ys" and "j < length ys" by simp_all
  with assms \<open>i < j\<close> have "R (ys ! i) (ys ! j)"
    by (simp add: sorted_wrt_iff_nth_less)
  with j \<open>i < j\<close> show "R (fst (snd (zip xs (zip ys zs) ! i))) (fst (snd (zip xs (zip ys zs) ! j)))"
    by simp
qed

lemma standardize_sorted:
  assumes "standardize parse cc a b c df = Inr rows"
    and "getitem df ''year'' = Inr yc" and "sorted_wrt fle (to_numeric parse yc)"
  shows "sorted_wrt (\<lambda>r s. fle (year r) (year s)) rows"
proof -
  from assms(1) obtain cs ta co sl where
    rows: "rows = map (\<lambda>r. r\<lparr>temperature_anomaly := fillna (Fin 0) (temperature_anomaly r),
                               co2_emission := fillna (Fin 0) (co2_emission r),
                               sea_level_change := fillna (Fin 0) (sea_level_change r)\<rparr>)
      (filter (\<lambda>r. country r \<noteq> NCell NaN \<and> year r \<noteq> NaN)
        (map (\<lambda>(c, y, t, e, s). \<lparr>country = c, year = y, temperature_anomaly = t,
                                  co2_emission = e, sea_level_change = s\<rparr>)
           (zip cs (zip (to_numeric parse yc) (zip ta (zip co sl))))))"
    unfolding standardize_def assms(2) by (auto simp: Let_def split: sum.splits)
  have "sorted_wrt (\<lambda>p q. fle (fst (snd p)) (fst (snd q)))
          (zip cs (zip (to_numeric parse yc) (zip ta (zip co sl))))"
    by (rule sorted_wrt_zip_snd[OF assms(3)])
  then have "sorted_wrt (\<lambda>r s. fle (year r) (year s))
     (map (\<lambda>(c, y, t, e, s). \<lparr>country = c, year = y, temperature_anomaly = t,
                                  co2_emission = e, sea_level_change = s\<rparr>)
           (zip cs (zip (to_numeric parse yc) (zip ta (zip co sl)))))"
    by (simp add: sorted_wrt_map split_def)
  then show ?thesis
    unfolding rows by (simp add: sorted_wrt_map sorted_wrt_filter)
qed

lemma standardize_no_missing:
  assumes "standardize parse cc a b c df = Inr rows" and "r \<in> set rows"
  shows "country r \<noteq> NCell NaN \<and> year r \<noteq> NaN \<and> temperature_anomaly r \<noteq> NaN \<and>
         co2_emission r \<noteq> NaN \<and> sea_level_change r \<noteq> NaN"
proof -
  from assms(1) obtain z where
    rows: "rows = map (\<lambda>r. r\<lparr>temperature_anomaly := fillna (Fin 0) (temperature_anomaly r),
                               co2_emission := fillna (Fin 0) (co2_emission r),
                               sea_level_change := fillna (Fin 0) (sea_level_change r)\<rparr>)
      (filter (\<lambda>r. country r \<noteq> NCell NaN \<and> year r \<noteq> NaN) z)"
    unfolding standardize_def by (auto simp: Let_def split: sum.splits)
  from assms(2) obtain q where "country q \<noteq> NCell NaN" and "year q \<noteq> NaN"
    and "r = q\<lparr>temperature_anomaly := fillna (Fin 0) (temperature_anomaly q),
                 co2_emission := fillna (Fin 0) (co2_emission q),
                 sea_level_change := fillna (Fin 0) (sea_level_change q)\<rparr>"
    unfolding rows by auto
  then show ?thesis by (simp add: fillna_def)
qed

text \<open>
  The frame that \<^verbatim>\<open>main\<close> hands to \<^verbatim>\<open>compute_features\<close>: its rows are in
  year order, each has a country, and no numeric field is missing.
\<close>

lemma standardized_year_order:
  assumes "standardized tape parse raw = Inr rows"
  shows "sorted_wrt (\<lambda>r s. fle (year r) (year s)) rows \<and>
         (\<forall>r\<in>set rows. country r \<noteq> NCell NaN \<and> co2_emission r \<noteq> NaN)"
proof -
  let ?df = "zip (normalize_cols (map fst raw)) (map snd raw)"
  let ?cols = "set (map fst ?df)"
  let ?df1 = "AList.update ''year'' (NumCol (replicate (nrows ?df) (Fin 2024))) ?df"
  from assms obtain cc sims where
    sims: "simulate tape (pick_col ?cols cri_aliases) (pick_col ?cols losses_aliases)
             (pick_col ?cols fatalities_aliases) ?df1 years 0 = Inr sims" and
    std: "standardize parse cc (pick_col ?cols cri_aliases) (pick_col ?cols losses_aliases)
             (pick_col ?cols fatalities_aliases) (concat_frames sims) = Inr rows"
    unfolding standardized_def Let_def
    by (auto split: option.splits sum.splits)
  have y: "getitem (concat_frames sims) ''year''
      = Inr (NumCol (concat (map (\<lambda>y. replicate (nrows ?df1) (Fin (of_int y))) years)))"
    using expanded_year_column[OF sims years_nonempty] by (simp add: getitem_def)
  have "sorted years" by (simp add: years_def)
  then have s: "sorted_wrt fle (to_numeric parse
      (NumCol (concat (map (\<lambda>y. replicate (nrows ?df1) (Fin (of_int y))) years))))"
    by (simp add: to_numeric_def sorted_year_blocks)
  from standardize_sorted[OF std y s] standardize_no_missing[OF std]
  show ?thesis by blast
qed

text \<open>
  The percent change along the whole pipeline: in the frame that \<^verbatim>\<open>main\<close> writes,
  the first row of a country has \<open>co2_growth = 0.0\<close> and no later row of that country has
  an earlier year; every other row has the change relative to the country's row before it.
\<close>

lemma main_co2_growth:
  assumes "main tape parse raw = Inr out" and "i < length out"
  shows "((\<forall>j<i. country (out ! j) \<noteq> country (out ! i)) \<longrightarrow>
            co2_growth (out ! i) = Fin 0 \<and>
            (\<forall>k<length out. i < k \<longrightarrow> fle (year (out ! i)) (year (out ! k)))) \<and>
         (j < i \<and> country (out ! j) = country (out ! i) \<and>
          (\<forall>k. j < k \<and> k < i \<longrightarrow> country (out ! k) \<noteq> country (out ! i)) \<longrightarrow>
            co2_growth (out ! i) =
              fillna (Fin 0) (fsub (fdiv (co2_emission (out ! i)) (co2_emission (out ! j))) (Fin 1)) \<and>
            fle (year (out ! j)) (year (out ! i)))"
proof -
  from assms(1) obtain rows where rows: "standardized tape parse raw = Inr rows"
    and out: "out = compute_features rows"
    by (auto simp: main_def split: sum.splits)
  from standardized_year_order[OF rows]
  have s: "sorted_wrt (\<lambda>r s. fle (year r) (year s)) rows"
    and c: "\<forall>r\<in>set rows. country r \<noteq> NCell NaN"
    and e: "\<forall>r\<in>set rows. co2_emission r \<noteq> NaN"
    by auto
  have i: "i < length rows" using assms(2) out by simp
  have ci: "country (rows ! i) \<noteq> NCell NaN" using c i by simp
  have sel: "\<And>k. k < length rows \<Longrightarrow> country (out ! k) = country (rows ! k) \<and>
      year (out ! k) = year (rows ! k) \<and> co2_emission (out ! k) = co2_emission (rows ! k)"
    by (simp add: out compute_features_nth)
  show ?thesis
  proof (intro conjI impI allI)
    assume "\<forall>j<i. country (out ! j) \<noteq> country (out ! i)"
    then have "\<forall>j<i. country (rows ! j) \<noteq> country (rows ! i)"
      using sel i by (metis less_trans)
    from co2_growth_first[OF i this] i show "co2_growth (out ! i) = Fin 0"
      by (simp add: out compute_features_nth)
  next
    fix k assume "k < length out" and "i < k"
    then have "k < length rows" using out by simp
    from sel[OF this] sel[OF i] s \<open>i < k\<close> \<open>k < length rows\<close>
    show "fle (year (out ! i)) (year (out ! k))"
      by (simp add: sorted_wrt_iff_nth_less)
  next
    assume p: "j < i \<and> country (out ! j) = country (out ! i) \<and>
          (\<forall>k. j < k \<and> k < i \<longrightarrow> country (out ! k) \<noteq> country (out ! i))"
    then have j: "j < i" by simp
    then have jl: "j < length rows" using i by simp
    have cj: "country (rows ! j) = country (rows ! i)"
      using p sel[OF jl] sel[OF i] by simp
    have b: "\<forall>k. j < k \<and> k < i \<longrightarrow> country (rows ! k) \<noteq> country (rows ! i)"
    proof (intro allI impI)
      fix k assume k: "j < k \<and> k < i"
      then have "k < length rows" using i by simp
      from p k have "country (out ! k) \<noteq> country (out ! i)" by blast
      with sel[OF \<open>k < length rows\<close>] sel[OF i]
      show "country (rows ! k) \<noteq> country (rows ! i)" by simp
    qed
    from co2_growth_next[OF i ci e j cj b] sel[OF i] sel[OF jl] i
    show "co2_growth (out ! i) =
       fillna (Fin 0) (fsub (fdiv (co2_emission (out ! i)) (co2_emission (out ! j))) (Fin 1))"
      by (simp add: out compute_features_nth)
    from s i j sel[OF i] sel[OF jl] show "fle (year (out ! j)) (year (out ! i))"
      by (simp add: sorted_wrt_iff_nth_less)
  qed
qed

end
